theory Spec2Isabelle
  imports Main
begin

section \<open>JavaScript values and the platform built-ins\<close>

text \<open>
  The logical values the hooks store. A value is a finite tree, so the cyclic object
  graphs and BigInt values on which \<^verbatim>\<open>JSON.stringify\<close> throws are outside the
  carrier; \<open>JFunction\<close> stands for a function value, which \<^verbatim>\<open>JSON.stringify\<close>
  maps to \<^verbatim>\<open>undefined\<close>. Deep equality of JavaScript is equality of these trees.
\<close>

datatype jsval =
    JUndefined
  | JNull
  | JBool bool
  | JNumber int
  | JString string
  | JArray "jsval list"
  | JObject "(string \<times> jsval) list"
  | JFunction nat

text \<open>\<^verbatim>\<open>typeof v === 'string'\<close>\<close>

fun is_string :: "jsval \<Rightarrow> bool" where
  "is_string (JString s) = True"
| "is_string v = False"

text \<open>\<^verbatim>\<open>a ?? b\<close>: the right operand when the left one is null or undefined.\<close>

fun nullish :: "jsval \<Rightarrow> bool" where
  "nullish JUndefined = True"
| "nullish JNull = True"
| "nullish v = False"

definition nullish_coalesce :: "jsval \<Rightarrow> jsval \<Rightarrow> jsval" where
  "nullish_coalesce a b = (if nullish a then b else a)"

text \<open>
  \<^verbatim>\<open>JSON.stringify\<close> and \<^verbatim>\<open>JSON.parse\<close> are built-ins of the platform, not code of
  the repository: the hooks take them as they are, and so does the model, as a
  parameter. \<open>JSON_stringify\<close> gives \<open>None\<close> where the built-in returns
  \<^verbatim>\<open>undefined\<close>; \<open>JSON_parse\<close> gives \<open>None\<close> where the built-in throws a
  SyntaxError.
\<close>

record json_builtins =
  JSON_stringify :: "jsval \<Rightarrow> string option"
  JSON_parse :: "string \<Rightarrow> jsval option"

section \<open>The storage area and the window\<close>

datatype exn = QuotaExceededError | SecurityError

text \<open>The fields of the \<^verbatim>\<open>StorageEvent\<close> the code constructs and reads.\<close>

record storage_event =
  ev_key :: "string option"
  ev_newValue :: "string option"
  ev_oldValue :: "string option"
  ev_storageArea_is_localStorage :: bool

text \<open>
  The execution environment: whether \<^verbatim>\<open>window\<close> is defined, the contents of
  \<^verbatim>\<open>localStorage\<close>, which storage calls throw (quota exceeded, access denied,
  storage disabled), the events handed to \<^verbatim>\<open>window.dispatchEvent\<close> and the errors
  handed to \<^verbatim>\<open>console.error\<close>, both in order.
\<close>

record browser =
  window_defined :: bool
  localStorage :: "string \<rightharpoonup> string"
  getItem_throws :: "string \<Rightarrow> exn option"
  setItem_throws :: "string \<Rightarrow> string \<Rightarrow> exn option"
  removeItem_throws :: "string \<Rightarrow> exn option"
  dispatched :: "storage_event list"
  console_error :: "exn list"

definition getItem :: "browser \<Rightarrow> string \<Rightarrow> exn + string option" where
  "getItem b k =
     (case getItem_throws b k of
        Some e \<Rightarrow> Inl e
      | None \<Rightarrow> Inr (localStorage b k))"

definition setItem :: "browser \<Rightarrow> string \<Rightarrow> string \<Rightarrow> exn + browser" where
  "setItem b k t =
     (case setItem_throws b k t of
        Some e \<Rightarrow> Inl e
      | None \<Rightarrow> Inr (b\<lparr>localStorage := (localStorage b)(k \<mapsto> t)\<rparr>))"

definition removeItem :: "browser \<Rightarrow> string \<Rightarrow> exn + browser" where
  "removeItem b k =
     (case removeItem_throws b k of
        Some e \<Rightarrow> Inl e
      | None \<Rightarrow> Inr (b\<lparr>localStorage := (localStorage b)(k := None)\<rparr>))"

definition dispatchEvent :: "browser \<Rightarrow> storage_event \<Rightarrow> browser" where
  "dispatchEvent b e = b\<lparr>dispatched := dispatched b @ [e]\<rparr>"

text \<open>
  A \<^verbatim>\<open>DOMString\<close> argument: \<^verbatim>\<open>setItem(key, undefined)\<close> stores the text
  \<^verbatim>\<open>undefined\<close>.
\<close>

definition to_DOMString :: "string option \<Rightarrow> string" where
  "to_DOMString t = (case t of None \<Rightarrow> ''undefined'' | Some s \<Rightarrow> s)"

text \<open>
  \<^verbatim>\<open>typeof v === 'string' ? v : JSON.stringify(v)\<close>, the text both writers store.
\<close>

definition storageValue :: "json_builtins \<Rightarrow> jsval \<Rightarrow> string option" where
  "storageValue J v = (case v of JString s \<Rightarrow> Some s | _ \<Rightarrow> JSON_stringify J v)"

section \<open>The imperative accessors\<close>

record config =
  cfg_key :: string
  cfg_defaultValue :: jsval

record gl_result =
  r_value :: jsval
  r_isNull :: bool

text \<open>\<^verbatim>\<open>getDefaultFromConfigs\<close> of src/src/useLocalStorage.ts.\<close>

definition getDefaultFromConfigs :: "string \<Rightarrow> config list option \<Rightarrow> jsval" where
  "getDefaultFromConfigs key configs =
     (case configs of
        None \<Rightarrow> JNull
      | Some cs \<Rightarrow>
          (case find (\<lambda>c. cfg_key c = key) cs of
             None \<Rightarrow> JNull
           | Some c \<Rightarrow> cfg_defaultValue c))"

text \<open>
  \<^verbatim>\<open>defaultValue ?? getDefaultFromConfigs(key, configs) ?? null\<close>, the fallback of
  every failing path of \<^verbatim>\<open>getLocalStorage\<close>.
\<close>

definition fallback :: "string \<Rightarrow> jsval \<Rightarrow> config list option \<Rightarrow> jsval" where
  "fallback key defaultValue configs =
     nullish_coalesce (nullish_coalesce defaultValue (getDefaultFromConfigs key configs)) JNull"

text \<open>
  \<^verbatim>\<open>getLocalStorage\<close> of src/src/useLocalStorage.ts. An omitted \<^verbatim>\<open>defaultValue\<close> is
  \<open>JUndefined\<close>, an omitted \<^verbatim>\<open>configs\<close> is \<open>None\<close>. The outer \<^verbatim>\<open>try\<close> catches
  what \<^verbatim>\<open>getItem\<close> throws, the inner one what \<^verbatim>\<open>JSON.parse\<close> throws.
\<close>

definition getLocalStorage ::
  "json_builtins \<Rightarrow> browser \<Rightarrow> string \<Rightarrow> jsval \<Rightarrow> config list option \<Rightarrow> exn + gl_result" where
  "getLocalStorage J b key defaultValue configs =
     (if \<not> window_defined b
      then Inr \<lparr>r_value = fallback key defaultValue configs, r_isNull = True\<rparr>
      else
        (case getItem b key of
           Inl e \<Rightarrow> Inr \<lparr>r_value = fallback key defaultValue configs, r_isNull = True\<rparr>
         | Inr None \<Rightarrow> Inr \<lparr>r_value = fallback key defaultValue configs, r_isNull = True\<rparr>
         | Inr (Some item) \<Rightarrow>
             if is_string defaultValue
             then Inr \<lparr>r_value = JString item, r_isNull = False\<rparr>
             else
               (case JSON_parse J item of
                  Some parsed \<Rightarrow> Inr \<lparr>r_value = parsed, r_isNull = False\<rparr>
                | None \<Rightarrow>
                    Inr \<lparr>r_value = fallback key defaultValue configs, r_isNull = True\<rparr>)))"

text \<open>
  \<^verbatim>\<open>getLocalStorage\<close> of src/unnamed/part_003 (lines 98 to 119): it returns the bare
  value, tests the item with \<^verbatim>\<open>!item\<close> (true of null and of the empty string) and
  has no \<^verbatim>\<open>configs\<close>.
\<close>

definition getLocalStorage_part_003 ::
  "json_builtins \<Rightarrow> browser \<Rightarrow> string \<Rightarrow> jsval \<Rightarrow> exn + jsval" where
  "getLocalStorage_part_003 J b key defaultValue =
     (if \<not> window_defined b then Inr (nullish_coalesce defaultValue JNull)
      else
        (case getItem b key of
           Inl e \<Rightarrow> Inr (nullish_coalesce defaultValue JNull)
         | Inr None \<Rightarrow> Inr (nullish_coalesce defaultValue JNull)
         | Inr (Some item) \<Rightarrow>
             if item = [] then Inr (nullish_coalesce defaultValue JNull)
             else if is_string defaultValue then Inr (JString item)
             else
               (case JSON_parse J item of
                  Some parsed \<Rightarrow> Inr parsed
                | None \<Rightarrow> Inr (nullish_coalesce defaultValue JNull))))"

text \<open>
  \<^verbatim>\<open>setLocalStorage\<close>, the same in both files. The \<^verbatim>\<open>try\<close> covers the whole
  body after the window test, so every path returns; a caught exception goes to
  \<^verbatim>\<open>console.error\<close>. The event's \<^verbatim>\<open>oldValue\<close> is read by \<^verbatim>\<open>getItem\<close> when
  the event is constructed, which is after \<^verbatim>\<open>setItem\<close>.
\<close>

definition setLocalStorage :: "json_builtins \<Rightarrow> browser \<Rightarrow> string \<Rightarrow> jsval \<Rightarrow> browser" where
  "setLocalStorage J b key v =
     (if \<not> window_defined b then b
      else
        (case setItem b key (to_DOMString (storageValue J v)) of
           Inl e \<Rightarrow> b\<lparr>console_error := console_error b @ [e]\<rparr>
         | Inr b1 \<Rightarrow>
             (case getItem b1 key of
                Inl e \<Rightarrow> b1\<lparr>console_error := console_error b1 @ [e]\<rparr>
              | Inr old \<Rightarrow>
                  dispatchEvent b1
                    \<lparr>ev_key = Some key, ev_newValue = storageValue J v, ev_oldValue = old,
                     ev_storageArea_is_localStorage = True\<rparr>)))"

section \<open>The reactive persisted cell: useLocalStorage\<close>

text \<open>
  One mounted instance of the hook: its arguments, its React state \<^verbatim>\<open>value\<close>, and
  whether the effect has attached \<^verbatim>\<open>handleStorageChange\<close> to the window's
  \<^verbatim>\<open>storage\<close> event.
\<close>

record cell =
  cell_key :: string
  cell_defaultValue :: jsval
  cell_value :: jsval
  cell_listening :: bool

text \<open>
  The lazy initializer of \<^verbatim>\<open>useState\<close>. \<^verbatim>\<open>!item\<close> holds of null and of the empty
  string.
\<close>

definition useLocalStorage_initializer ::
  "json_builtins \<Rightarrow> browser \<Rightarrow> string \<Rightarrow> jsval \<Rightarrow> jsval" where
  "useLocalStorage_initializer J b key defaultValue =
     (if \<not> window_defined b then defaultValue
      else
        (case getItem b key of
           Inl e \<Rightarrow> defaultValue
         | Inr None \<Rightarrow> defaultValue
         | Inr (Some item) \<Rightarrow>
             if item = [] then defaultValue
             else if is_string defaultValue then JString item
             else
               (case JSON_parse J item of
                  Some parsed \<Rightarrow> parsed
                | None \<Rightarrow> defaultValue)))"

text \<open>
  The hook after its first render and effect: the effect returns early without a
  window, and attaches the listener otherwise.
\<close>

definition useLocalStorage :: "json_builtins \<Rightarrow> browser \<Rightarrow> string \<Rightarrow> jsval \<Rightarrow> cell" where
  "useLocalStorage J b key defaultValue =
     \<lparr>cell_key = key, cell_defaultValue = defaultValue,
      cell_value = useLocalStorage_initializer J b key defaultValue,
      cell_listening = window_defined b\<rparr>"

text \<open>
  \<^verbatim>\<open>handleStorageChange\<close>. \<^verbatim>\<open>!e.newValue\<close> holds of null and of the empty string;
  the \<^verbatim>\<open>try\<close> catches what \<^verbatim>\<open>JSON.parse\<close> throws.
\<close>

definition handleStorageChange :: "json_builtins \<Rightarrow> cell \<Rightarrow> storage_event \<Rightarrow> cell" where
  "handleStorageChange J c e =
     (if ev_key e = Some (cell_key c) \<and> ev_storageArea_is_localStorage e
      then
        (case ev_newValue e of
           None \<Rightarrow> c\<lparr>cell_value := cell_defaultValue c\<rparr>
         | Some newValue \<Rightarrow>
             if newValue = [] then c\<lparr>cell_value := cell_defaultValue c\<rparr>
             else if is_string (cell_defaultValue c) then c\<lparr>cell_value := JString newValue\<rparr>
             else
               (case JSON_parse J newValue of
                  Some parsed \<Rightarrow> c\<lparr>cell_value := parsed\<rparr>
                | None \<Rightarrow> c\<lparr>cell_value := cell_defaultValue c\<rparr>))
      else c)"

text \<open>
  What \<^verbatim>\<open>window.dispatchEvent\<close> does to a cell: it calls the listener when the cell
  has attached one. The calls are synchronous, so a cell's own write reaches its own
  listener before the write returns; React applies the queued \<^verbatim>\<open>setValue\<close> calls in
  order, so the last one gives the state of the next render.
\<close>

definition deliver :: "json_builtins \<Rightarrow> storage_event \<Rightarrow> cell \<Rightarrow> cell" where
  "deliver J e c = (if cell_listening c then handleStorageChange J c e else c)"

text \<open>
  The argument of a state setter: a value, or a function of the previous value
  (\<^verbatim>\<open>newValue instanceof Function\<close>).
\<close>

datatype set_action = Value jsval | Updater "jsval \<Rightarrow> jsval"

text \<open>
  \<^verbatim>\<open>setStoredValue\<close>. There is no \<^verbatim>\<open>try\<close> in it: what \<^verbatim>\<open>setItem\<close> or
  \<^verbatim>\<open>getItem\<close> throws leaves the function, after \<^verbatim>\<open>setValue\<close> has been called. The
  result is the exception that reaches the caller (\<open>None\<close> when the call returns), the
  browser and the cell.
\<close>

definition setStoredValue ::
  "json_builtins \<Rightarrow> browser \<Rightarrow> cell \<Rightarrow> set_action \<Rightarrow> exn option \<times> browser \<times> cell" where
  "setStoredValue J b c newValue =
     (let valueToStore = (case newValue of Updater f \<Rightarrow> f (cell_value c) | Value v \<Rightarrow> v);
          c1 = c\<lparr>cell_value := valueToStore\<rparr>
      in if window_defined b
         then
           (case setItem b (cell_key c) (to_DOMString (storageValue J valueToStore)) of
              Inl e \<Rightarrow> (Some e, b, c1)
            | Inr b1 \<Rightarrow>
                (case getItem b1 (cell_key c) of
                   Inl e \<Rightarrow> (Some e, b1, c1)
                 | Inr old \<Rightarrow>
                     (let ev = \<lparr>ev_key = Some (cell_key c),
                                ev_newValue = storageValue J valueToStore,
                                ev_oldValue = old, ev_storageArea_is_localStorage = True\<rparr>
                      in (None, dispatchEvent b1 ev, deliver J ev c1))))
         else (None, b, c1))"

text \<open>\<^verbatim>\<open>remove\<close>: the old value is read before \<^verbatim>\<open>removeItem\<close>; no \<^verbatim>\<open>try\<close> either.\<close>

definition remove :: "json_builtins \<Rightarrow> browser \<Rightarrow> cell \<Rightarrow> exn option \<times> browser \<times> cell" where
  "remove J b c =
     (let c1 = c\<lparr>cell_value := cell_defaultValue c\<rparr>
      in if window_defined b
         then
           (case getItem b (cell_key c) of
              Inl e \<Rightarrow> (Some e, b, c1)
            | Inr oldValue \<Rightarrow>
                (case removeItem b (cell_key c) of
                   Inl e \<Rightarrow> (Some e, b, c1)
                 | Inr b1 \<Rightarrow>
                     (let ev = \<lparr>ev_key = Some (cell_key c), ev_newValue = None,
                                ev_oldValue = oldValue, ev_storageArea_is_localStorage = True\<rparr>
                      in (None, dispatchEvent b1 ev, deliver J ev c1))))
         else (None, b, c1))"

text \<open>The three parts of what a mutator of the hooks gives.\<close>

definition thrown :: "exn option \<times> browser \<times> 'a \<Rightarrow> exn option" where
  "thrown r = fst r"

definition browser_after :: "exn option \<times> browser \<times> 'a \<Rightarrow> browser" where
  "browser_after r = fst (snd r)"

definition state_after :: "exn option \<times> browser \<times> 'a \<Rightarrow> 'a" where
  "state_after r = snd (snd r)"

section \<open>The draft overlay: useDraftLocalStorage\<close>

record draft_overlay =
  overlay_cell :: cell
  draftValue :: jsval

definition storedValue :: "draft_overlay \<Rightarrow> jsval" where
  "storedValue dc = cell_value (overlay_cell dc)"

definition useDraftLocalStorage ::
  "json_builtins \<Rightarrow> browser \<Rightarrow> string \<Rightarrow> jsval \<Rightarrow> draft_overlay" where
  "useDraftLocalStorage J b key defaultValue =
     (let c = useLocalStorage J b key defaultValue
      in \<lparr>overlay_cell = c, draftValue = cell_value c\<rparr>)"

text \<open>
  The effect with dependency \<^verbatim>\<open>[storedValue]\<close>. React reruns it when the stored value
  of the new render is not \<^verbatim>\<open>Object.is\<close> the one of the render before: always when the
  two differ, and for deep-equal objects when the new one is another object
  (\<open>other_object\<close>, which the caller of the model supplies: identity is not part of a
  \<open>jsval\<close>).
\<close>

definition sync_draft :: "bool \<Rightarrow> jsval \<Rightarrow> draft_overlay \<Rightarrow> draft_overlay" where
  "sync_draft other_object before dc =
     (if storedValue dc = before \<and> \<not> other_object then dc
      else dc\<lparr>draftValue := storedValue dc\<rparr>)"

definition setDraftValue :: "jsval \<Rightarrow> draft_overlay \<Rightarrow> draft_overlay" where
  "setDraftValue x dc = dc\<lparr>draftValue := x\<rparr>"

definition save ::
  "json_builtins \<Rightarrow> bool \<Rightarrow> browser \<Rightarrow> draft_overlay \<Rightarrow> exn option \<times> browser \<times> draft_overlay" where
  "save J other_object b dc =
     (case setStoredValue J b (overlay_cell dc) (Value (draftValue dc)) of
        (e, b1, c1) \<Rightarrow>
          (e, b1, sync_draft other_object (storedValue dc) (dc\<lparr>overlay_cell := c1\<rparr>)))"

definition reset :: "draft_overlay \<Rightarrow> draft_overlay" where
  "reset dc = dc\<lparr>draftValue := storedValue dc\<rparr>"

definition removeValue ::
  "json_builtins \<Rightarrow> bool \<Rightarrow> browser \<Rightarrow> draft_overlay \<Rightarrow> exn option \<times> browser \<times> draft_overlay" where
  "removeValue J other_object b dc =
     (case remove J b (overlay_cell dc) of
        (e, b1, c1) \<Rightarrow>
          (e, b1, sync_draft other_object (storedValue dc) (dc\<lparr>overlay_cell := c1\<rparr>)))"

text \<open>\<^verbatim>\<open>JSON.stringify(draftValue) !== JSON.stringify(storedValue)\<close>\<close>

definition hasChanges :: "json_builtins \<Rightarrow> draft_overlay \<Rightarrow> bool" where
  "hasChanges J dc = (JSON_stringify J (draftValue dc) \<noteq> JSON_stringify J (storedValue dc))"

section \<open>A reference JSON\<close>

text \<open>
  An implementation of the two built-ins on a fragment of JSON, for running the model
  on concrete inputs: numbers are the integers (a text with a fraction or an exponent
  is outside the fragment and is refused), characters are bytes (of the
  \<^verbatim>\<open>\u\<close> escapes only those below 256 are read). The theorems below are about any
  \<open>json_builtins\<close>; only their instances at concrete inputs use this one.
\<close>

definition digit_char :: "nat \<Rightarrow> char" where
  "digit_char d = ''0123456789abcdef'' ! d"

fun decimal :: "nat \<Rightarrow> string" where
  "decimal n = (if n < 10 then [digit_char n] else decimal (n div 10) @ [digit_char (n mod 10)])"

declare decimal.simps [simp del]

definition escape_char :: "char \<Rightarrow> string" where
  "escape_char c =
     (if c = CHR 0x22 then [CHR 0x5C, CHR 0x22]
      else if c = CHR 0x5C then [CHR 0x5C, CHR 0x5C]
      else if c = CHR 0x08 then [CHR 0x5C, CHR ''b'']
      else if c = CHR 0x0C then [CHR 0x5C, CHR ''f'']
      else if c = CHR 0x0A then [CHR 0x5C, CHR ''n'']
      else if c = CHR 0x0D then [CHR 0x5C, CHR ''r'']
      else if c = CHR 0x09 then [CHR 0x5C, CHR ''t'']
      else if (of_char c :: nat) < 32
        then [CHR 0x5C, CHR ''u'', CHR ''0'', CHR ''0'',
              digit_char ((of_char c :: nat) div 16), digit_char ((of_char c :: nat) mod 16)]
      else [c])"

definition quote :: "string \<Rightarrow> string" where
  "quote s = CHR 0x22 # concat (map escape_char s) @ [CHR 0x22]"

fun commas :: "string list \<Rightarrow> string" where
  "commas [] = []"
| "commas [t] = t"
| "commas (t # ts) = t @ CHR '','' # commas ts"

fun serialize :: "jsval \<Rightarrow> string option"
  and serialize_elements :: "jsval list \<Rightarrow> string list"
  and serialize_members :: "(string \<times> jsval) list \<Rightarrow> string list" where
  "serialize JUndefined = None"
| "serialize (JFunction f) = None"
| "serialize JNull = Some ''null''"
| "serialize (JBool b) = Some (if b then ''true'' else ''false'')"
| "serialize (JNumber n) = Some (if n < 0 then CHR ''-'' # decimal (nat (- n)) else decimal (nat n))"
| "serialize (JString s) = Some (quote s)"
| "serialize (JArray vs) = Some (CHR ''['' # commas (serialize_elements vs) @ '']'')"
| "serialize (JObject ms) = Some (CHR ''{'' # commas (serialize_members ms) @ ''}'')"
| "serialize_elements [] = []"
| "serialize_elements (v # vs) =
     (case serialize v of None \<Rightarrow> ''null'' | Some t \<Rightarrow> t) # serialize_elements vs"
| "serialize_members [] = []"
| "serialize_members ((k, v) # ms) =
     (case serialize v of
        None \<Rightarrow> serialize_members ms
      | Some t \<Rightarrow> (quote k @ CHR '':'' # t) # serialize_members ms)"

definition is_ws :: "char \<Rightarrow> bool" where
  "is_ws c = (c = CHR '' '' \<or> c = CHR 0x09 \<or> c = CHR 0x0A \<or> c = CHR 0x0D)"

definition skip_ws :: "string \<Rightarrow> string" where
  "skip_ws cs = dropWhile is_ws cs"

definition is_digit :: "char \<Rightarrow> bool" where
  "is_digit c = (48 \<le> (of_char c :: nat) \<and> (of_char c :: nat) \<le> 57)"

definition hex_value :: "char \<Rightarrow> nat option" where
  "hex_value c =
     (let n = (of_char c :: nat)
      in if 48 \<le> n \<and> n \<le> 57 then Some (n - 48)
         else if 97 \<le> n \<and> n \<le> 102 then Some (n - 87)
         else if 65 \<le> n \<and> n \<le> 70 then Some (n - 55)
         else None)"

fun parse_chars :: "string \<Rightarrow> (string \<times> string) option" where
  "parse_chars [] = None"
| "parse_chars (c # cs) =
     (if c = CHR 0x22 then Some ([], cs)
      else if c = CHR 0x5C then
        (case cs of
           [] \<Rightarrow> None
         | e # r \<Rightarrow>
             (if e = CHR ''u'' then
                (case r of
                   h1 # h2 # h3 # h4 # r' \<Rightarrow>
                     (case (hex_value h1, hex_value h2, hex_value h3, hex_value h4) of
                        (Some a, Some b, Some c', Some d) \<Rightarrow>
                          (if a = 0 \<and> b = 0
                           then map_option (\<lambda>(s, r''). (char_of (16 * c' + d) # s, r'')) (parse_chars r')
                           else None)
                      | _ \<Rightarrow> None)
                 | _ \<Rightarrow> None)
              else
                (case (if e = CHR 0x22 then Some (CHR 0x22)
                       else if e = CHR 0x5C then Some (CHR 0x5C)
                       else if e = CHR ''/'' then Some (CHR ''/'')
                       else if e = CHR ''b'' then Some (CHR 0x08)
                       else if e = CHR ''f'' then Some (CHR 0x0C)
                       else if e = CHR ''n'' then Some (CHR 0x0A)
                       else if e = CHR ''r'' then Some (CHR 0x0D)
                       else if e = CHR ''t'' then Some (CHR 0x09)
                       else None) of
                   None \<Rightarrow> None
                 | Some x \<Rightarrow> map_option (\<lambda>(s, r'). (x # s, r')) (parse_chars r))))
      else if (of_char c :: nat) < 32 then None
      else map_option (\<lambda>(s, r). (c # s, r)) (parse_chars cs))"

definition digits_value :: "string \<Rightarrow> nat" where
  "digits_value ds = foldl (\<lambda>a c. 10 * a + (of_char c - 48)) 0 ds"

text \<open>An unsigned integer literal: a single 0, or digits that do not start with 0.\<close>

definition parse_nat :: "string \<Rightarrow> (nat \<times> string) option" where
  "parse_nat cs =
     (let ds = takeWhile is_digit cs; r = dropWhile is_digit cs
      in if ds = [] \<or> (hd ds = CHR ''0'' \<and> length ds > 1) then None
         else (case r of
                 [] \<Rightarrow> Some (digits_value ds, r)
               | c # _ \<Rightarrow> if c = CHR ''.'' \<or> c = CHR ''e'' \<or> c = CHR ''E'' then None
                          else Some (digits_value ds, r)))"

fun parse_value :: "nat \<Rightarrow> string \<Rightarrow> (jsval \<times> string) option"
  and parse_elements :: "nat \<Rightarrow> string \<Rightarrow> (jsval list \<times> string) option"
  and parse_members :: "nat \<Rightarrow> string \<Rightarrow> ((string \<times> jsval) list \<times> string) option" where
  "parse_value 0 cs = None"
| "parse_value (Suc n) cs =
     (case skip_ws cs of
        [] \<Rightarrow> None
      | c # r \<Rightarrow>
          if c = CHR ''n'' then (if take 3 r = ''ull'' then Some (JNull, drop 3 r) else None)
          else if c = CHR ''t'' then (if take 3 r = ''rue'' then Some (JBool True, drop 3 r) else None)
          else if c = CHR ''f'' then (if take 4 r = ''alse'' then Some (JBool False, drop 4 r) else None)
          else if c = CHR 0x22 then map_option (\<lambda>(s, r'). (JString s, r')) (parse_chars r)
          else if c = CHR ''['' then
            (case skip_ws r of
               [] \<Rightarrow> None
             | d # r' \<Rightarrow>
                 if d = CHR '']'' then Some (JArray [], r')
                 else map_option (\<lambda>(vs, r''). (JArray vs, r'')) (parse_elements n r))
          else if c = CHR ''{'' then
            (case skip_ws r of
               [] \<Rightarrow> None
             | d # r' \<Rightarrow>
                 if d = CHR ''}'' then Some (JObject [], r')
                 else map_option (\<lambda>(ms, r''). (JObject ms, r'')) (parse_members n r))
          else if c = CHR ''-'' then map_option (\<lambda>(m, r'). (JNumber (- int m), r')) (parse_nat r)
          else map_option (\<lambda>(m, r'). (JNumber (int m), r')) (parse_nat (c # r)))"
| "parse_elements 0 cs = None"
| "parse_elements (Suc n) cs =
     (case parse_value n cs of
        None \<Rightarrow> None
      | Some (v, r) \<Rightarrow>
          (case skip_ws r of
             [] \<Rightarrow> None
           | d # r' \<Rightarrow>
               if d = CHR '']'' then Some ([v], r')
               else if d = CHR '','' then map_option (\<lambda>(vs, r''). (v # vs, r'')) (parse_elements n r')
               else None))"
| "parse_members 0 cs = None"
| "parse_members (Suc n) cs =
     (case skip_ws cs of
        [] \<Rightarrow> None
      | q # r \<Rightarrow>
          if q \<noteq> CHR 0x22 then None
          else
            (case parse_chars r of
               None \<Rightarrow> None
             | Some (k, r1) \<Rightarrow>
                 (case skip_ws r1 of
                    [] \<Rightarrow> None
                  | col # r2 \<Rightarrow>
                      if col \<noteq> CHR '':'' then None
                      else
                        (case parse_value n r2 of
                           None \<Rightarrow> None
                         | Some (v, r3) \<Rightarrow>
                             (case skip_ws r3 of
                                [] \<Rightarrow> None
                              | d # r4 \<Rightarrow>
                                  if d = CHR ''}'' then Some ([(k, v)], r4)
                                  else if d = CHR '','' then
                                    map_option (\<lambda>(ms, r5). ((k, v) # ms, r5)) (parse_members n r4)
                                  else None)))))"

definition parse_text :: "string \<Rightarrow> jsval option" where
  "parse_text s =
     (case parse_value (Suc (length s)) s of
        None \<Rightarrow> None
      | Some (v, r) \<Rightarrow> if skip_ws r = [] then Some v else None)"

definition reference_JSON :: json_builtins where
  "reference_JSON = \<lparr>JSON_stringify = serialize, JSON_parse = parse_text\<rparr>"


text \<open>
  The values the reference JSON gives back as they were: those built from null,
  booleans, integers, strings, arrays and objects.
\<close>

fun plain :: "jsval \<Rightarrow> bool"
  and plain_elements :: "jsval list \<Rightarrow> bool"
  and plain_members :: "(string \<times> jsval) list \<Rightarrow> bool" where
  "plain JUndefined = False"
| "plain (JFunction f) = False"
| "plain JNull = True"
| "plain (JBool b) = True"
| "plain (JNumber n) = True"
| "plain (JString s) = True"
| "plain (JArray vs) = plain_elements vs"
| "plain (JObject ms) = plain_members ms"
| "plain_elements [] = True"
| "plain_elements (v # vs) = (plain v \<and> plain_elements vs)"
| "plain_members [] = True"
| "plain_members ((k, v) # ms) = (plain v \<and> plain_members ms)"

text \<open>
  What may follow a number in a text, and what a serialized value may start with.
\<close>

definition ok_follow :: "string \<Rightarrow> bool" where
  "ok_follow rest =
     (case rest of
        [] \<Rightarrow> True
      | c # _ \<Rightarrow> \<not> is_digit c \<and> c \<noteq> CHR ''.'' \<and> c \<noteq> CHR ''e'' \<and> c \<noteq> CHR ''E'')"

definition value_start :: "char \<Rightarrow> bool" where
  "value_start c = (\<not> is_ws c \<and> c \<noteq> CHR '']'' \<and> c \<noteq> CHR ''}'' \<and> c \<noteq> CHR '','')"

text \<open>A browser with a window and a working, empty storage area.\<close>

definition working_browser :: browser where
  "working_browser =
     \<lparr>window_defined = True, localStorage = Map.empty,
      getItem_throws = (\<lambda>k. None), setItem_throws = (\<lambda>k t. None),
      removeItem_throws = (\<lambda>k. None), dispatched = [], console_error = []\<rparr>"

text \<open>A browser whose storage area is full: every \<^verbatim>\<open>setItem\<close> throws.\<close>

definition full_browser :: browser where
  "full_browser = working_browser\<lparr>setItem_throws := (\<lambda>k t. Some QuotaExceededError)\<rparr>"

section \<open>Notions of the specification\<close>

text \<open>
  A value is JSON-serializable when \<^verbatim>\<open>JSON.stringify\<close> gives it a text, which is
  never empty, and \<^verbatim>\<open>JSON.parse\<close> of that text is deeply equal to the value.
\<close>

definition json_serializable :: "json_builtins \<Rightarrow> jsval \<Rightarrow> bool" where
  "json_serializable J v =
     (case JSON_stringify J v of
        None \<Rightarrow> False
      | Some t \<Rightarrow> t \<noteq> [] \<and> JSON_parse J t = Some v)"

text \<open>
  The specification's words for \<^verbatim>\<open>getLocalStorage\<close>: a decodable stored item was
  obtained when there is a window, the storage access does not throw, the key is
  present, and the default is a string or the item parses.
\<close>

definition decodable_item :: "json_builtins \<Rightarrow> browser \<Rightarrow> string \<Rightarrow> jsval \<Rightarrow> bool" where
  "decodable_item J b key defaultValue =
     (window_defined b \<and> getItem_throws b key = None \<and>
      (case localStorage b key of
         None \<Rightarrow> False
       | Some item \<Rightarrow> is_string defaultValue \<or> JSON_parse J item \<noteq> None))"

text \<open>
  The specification's words for the fallback: the supplied default value (one that is
  neither undefined nor null), else the default value of the first configs entry with
  the key (when it is neither undefined nor null), else null.
\<close>

definition default_chain :: "string \<Rightarrow> jsval \<Rightarrow> config list option \<Rightarrow> jsval" where
  "default_chain key defaultValue configs =
     (if \<not> nullish defaultValue then defaultValue
      else
        (case configs of
           None \<Rightarrow> JNull
         | Some cs \<Rightarrow>
             (case find (\<lambda>c. cfg_key c = key) cs of
                None \<Rightarrow> JNull
              | Some c \<Rightarrow> if nullish (cfg_defaultValue c) then JNull else cfg_defaultValue c)))"

text \<open>
  The inputs on which the two \<^verbatim>\<open>getLocalStorage\<close> variants part: the storage area
  answers with the empty string and the default is a string.
\<close>

definition empty_text_under_string_default :: "browser \<Rightarrow> string \<Rightarrow> jsval \<Rightarrow> bool" where
  "empty_text_under_string_default b key defaultValue =
     (is_string defaultValue \<and> window_defined b \<and> getItem_throws b key = None
      \<and> localStorage b key = Some [])"

text \<open>
  A value reads back under a default when the text written for it decodes to it again:
  under a string default, a string that is not empty, or the empty string when the
  default is the empty string too; under a default that is not a string, a
  JSON-serializable value that is not a string.
\<close>

definition reads_back :: "json_builtins \<Rightarrow> jsval \<Rightarrow> jsval \<Rightarrow> bool" where
  "reads_back J defaultValue x =
     (case x of
        JString t \<Rightarrow> is_string defaultValue \<and> (t \<noteq> [] \<or> defaultValue = JString t)
      | _ \<Rightarrow> \<not> is_string defaultValue \<and> json_serializable J x)"

text \<open>
  The notification of a cell's write of \<open>x\<close> reaches the cell's own listener when there
  is a window, the listener is attached, and neither \<^verbatim>\<open>setItem\<close> nor the
  \<^verbatim>\<open>getItem\<close> that reads the event's old value throws.
\<close>

definition write_notifies :: "json_builtins \<Rightarrow> browser \<Rightarrow> cell \<Rightarrow> jsval \<Rightarrow> bool" where
  "write_notifies J b c x =
     (window_defined b \<and> cell_listening c
      \<and> setItem_throws b (cell_key c) (to_DOMString (storageValue J x)) = None
      \<and> getItem_throws b (cell_key c) = None)"

text \<open>
  The example scenario of the specification: the key \<^verbatim>\<open>settings\<close> with the default
  \<^verbatim>\<open>{darkMode: false}\<close>, in a browser with a working, empty storage area.
\<close>

definition dark_mode :: "bool \<Rightarrow> jsval" where
  "dark_mode on = JObject [(''darkMode'', JBool on)]"

definition settings_overlay :: draft_overlay where
  "settings_overlay =
     useDraftLocalStorage reference_JSON working_browser ''settings'' (dark_mode False)"

text \<open>
  The note of the README, \<^verbatim>\<open>useDraftLocalStorage('note', '')\<close>, in a browser that
  holds a saved note under the key.
\<close>

definition saved_note_browser :: browser where
  "saved_note_browser = working_browser\<lparr>localStorage := [''note'' \<mapsto> ''buy milk'']\<rparr>"

definition note_overlay :: draft_overlay where
  "note_overlay = useDraftLocalStorage reference_JSON saved_note_browser ''note'' (JString '''')"

text \<open>
  A cell on the key \<^verbatim>\<open>note\<close> with the default \<^verbatim>\<open>hello\<close>, mounted in a browser that
  holds a text under the key.
\<close>

definition note_browser :: browser where
  "note_browser = working_browser\<lparr>localStorage := [''note'' \<mapsto> ''draft text'']\<rparr>"

definition note_cell :: cell where
  "note_cell = useLocalStorage reference_JSON note_browser ''note'' (JString ''hello'')"

section \<open>Facts about the reference JSON\<close>

text \<open>
  Every plain value is JSON-serializable under the reference JSON: parsing the text of
  the value gives the value, by induction on the value, its elements and its members.
\<close>

lemma nat_less_cases16:
  "(d::nat) < 16 \<Longrightarrow> d = 0 \<or> d = 1 \<or> d = 2 \<or> d = 3 \<or> d = 4 \<or> d = 5 \<or> d = 6 \<or> d = 7
     \<or> d = 8 \<or> d = 9 \<or> d = 10 \<or> d = 11 \<or> d = 12 \<or> d = 13 \<or> d = 14 \<or> d = 15"
  by arith

lemma hex_value_digit_char:
  assumes "d < 16"
  shows "hex_value (digit_char d) = Some d"
  using nat_less_cases16[OF assms]
  by (elim disjE) (simp_all add: hex_value_def digit_char_def Let_def)

lemma digit_char_decimal:
  assumes "d < 10"
  shows "is_digit (digit_char d)" and "(of_char (digit_char d) :: nat) = 48 + d"
    and "digit_char d = CHR ''0'' \<longrightarrow> d = 0"
proof -
  from assms have "d = 0 \<or> d = 1 \<or> d = 2 \<or> d = 3 \<or> d = 4 \<or> d = 5 \<or> d = 6 \<or> d = 7
     \<or> d = 8 \<or> d = 9" by arith
  then show "is_digit (digit_char d)" and "(of_char (digit_char d) :: nat) = 48 + d"
    and "digit_char d = CHR ''0'' \<longrightarrow> d = 0"
    by (elim disjE; simp add: is_digit_def digit_char_def)+
qed

lemma digits_value_snoc:
  "digits_value (ds @ [c]) = 10 * digits_value ds + (of_char c - 48)"
  by (simp add: digits_value_def)

lemma decimal_props:
  "decimal n \<noteq> [] \<and> list_all is_digit (decimal n) \<and> digits_value (decimal n) = n
   \<and> (hd (decimal n) = CHR ''0'' \<longrightarrow> n = 0)"
proof (induction n rule: decimal.induct)
  case (1 n)
  show ?case
  proof (cases "n < 10")
    case True
    then have d: "decimal n = [digit_char n]"
      by (subst decimal.simps) simp
    from digit_char_decimal[OF True] show ?thesis
      by (simp add: d digits_value_def)
  next
    case False
    then have d: "decimal n = decimal (n div 10) @ [digit_char (n mod 10)]"
      by (subst decimal.simps) simp
    have m: "n mod 10 < 10" by simp
    from False have nz: "n div 10 \<noteq> 0" by simp
    from "1.IH"[OF False] nz have ih: "decimal (n div 10) \<noteq> []"
      "list_all is_digit (decimal (n div 10))" "digits_value (decimal (n div 10)) = n div 10"
      "hd (decimal (n div 10)) \<noteq> CHR ''0''"
      by auto
    from ih digit_char_decimal(1,2)[OF m] False show ?thesis
      by (simp add: d digits_value_snoc)
  qed
qed

lemma takeWhile_digits:
  "list_all is_digit ds \<Longrightarrow> ok_follow rest \<Longrightarrow>
   takeWhile is_digit (ds @ rest) = ds \<and> dropWhile is_digit (ds @ rest) = rest"
  by (induction ds) (auto simp: ok_follow_def split: list.splits)

lemma parse_nat_decimal:
  assumes "ok_follow rest"
  shows "parse_nat (decimal n @ rest) = Some (n, rest)"
proof -
  note p = decimal_props[of n]
  from p have tw: "takeWhile is_digit (decimal n @ rest) = decimal n"
    "dropWhile is_digit (decimal n @ rest) = rest"
    using takeWhile_digits[OF _ assms] by auto
  have "decimal 0 = ''0''"
    by (subst decimal.simps) (simp add: digit_char_def)
  with p have lz: "\<not> (hd (decimal n) = CHR ''0'' \<and> length (decimal n) > 1)"
    by auto
  from p lz assms show ?thesis
    by (auto simp: parse_nat_def tw Let_def ok_follow_def
        split: list.splits)
qed


lemma parse_chars_escape:
  "parse_chars (escape_char c @ cs) = map_option (\<lambda>(s, r). (c # s, r)) (parse_chars cs)"
proof -
  consider (q) "c = CHR 0x22" | (b) "c = CHR 0x5C" | (bs) "c = CHR 0x08" | (ff) "c = CHR 0x0C"
    | (nl) "c = CHR 0x0A" | (cr) "c = CHR 0x0D" | (tab) "c = CHR 0x09"
    | (ctl) "c \<notin> {CHR 0x22, CHR 0x5C, CHR 0x08, CHR 0x0C, CHR 0x0A, CHR 0x0D, CHR 0x09}"
        "(of_char c :: nat) < 32"
    | (plain) "c \<notin> {CHR 0x22, CHR 0x5C, CHR 0x08, CHR 0x0C, CHR 0x0A, CHR 0x0D, CHR 0x09}"
        "\<not> (of_char c :: nat) < 32"
    by blast
  then show ?thesis
  proof cases
    case ctl
    let ?n = "of_char c :: nat"
    have h1: "hex_value (digit_char (?n div 16)) = Some (?n div 16)"
      using ctl(2) by (intro hex_value_digit_char) simp
    have h2: "hex_value (digit_char (?n mod 16)) = Some (?n mod 16)"
      by (intro hex_value_digit_char) simp
    have h0: "hex_value CHR ''0'' = Some 0"
      by (simp add: hex_value_def)
    have c: "char_of (16 * (?n div 16) + ?n mod 16) = c"
      by simp
    from ctl show ?thesis
      by (simp add: escape_char_def h0 h1 h2 c)
  qed (simp_all add: escape_char_def)
qed

lemma parse_chars_quoted:
  "parse_chars (concat (map escape_char s) @ CHR 0x22 # rest) = Some (s, rest)"
  by (induction s) (simp_all add: parse_chars_escape)

lemma is_digit_start:
  assumes "is_digit c"
  shows "value_start c" and "c \<noteq> CHR ''n''" and "c \<noteq> CHR ''t''" and "c \<noteq> CHR ''f''"
    and "c \<noteq> CHR 0x22" and "c \<noteq> CHR ''[''" and "c \<noteq> CHR ''{''" and "c \<noteq> CHR ''-''"
  using assms by (auto simp: is_digit_def value_start_def is_ws_def)

lemma decimal_head: "\<exists>c r. decimal n = c # r \<and> is_digit c"
  using decimal_props[of n] by (cases "decimal n") auto

lemma serialize_head:
  assumes "serialize v = Some t"
  shows "\<exists>c r. t = c # r \<and> value_start c"
proof (cases v)
  case (JNumber n)
  obtain c r where d: "decimal (nat \<bar>n\<bar>) = c # r" "is_digit c"
    using decimal_head by blast
  show ?thesis
  proof (cases "n < 0")
    case True
    with JNumber assms show ?thesis
      by (auto simp: value_start_def is_ws_def)
  next
    case False
    with JNumber assms d is_digit_start(1)[OF d(2)] show ?thesis
      by auto
  qed
qed (use assms in \<open>auto simp: value_start_def is_ws_def quote_def\<close>)

lemma skip_ws_start: "value_start c \<Longrightarrow> skip_ws (c # r) = c # r"
  by (simp add: skip_ws_def value_start_def)

lemma skip_ws_punct:
  "skip_ws (CHR '']'' # r) = CHR '']'' # r"
  "skip_ws (CHR ''}'' # r) = CHR ''}'' # r"
  "skip_ws (CHR '','' # r) = CHR '','' # r"
  "skip_ws (CHR '':'' # r) = CHR '':'' # r"
  "skip_ws (CHR 0x22 # r) = CHR 0x22 # r"
  "skip_ws (CHR ''['' # r) = CHR ''['' # r"
  "skip_ws (CHR ''{'' # r) = CHR ''{'' # r"
  by (simp_all add: skip_ws_def is_ws_def)

lemma ok_follow_punct:
  "ok_follow []" "ok_follow (CHR '']'' # r)" "ok_follow (CHR ''}'' # r)" "ok_follow (CHR '','' # r)"
  by (simp_all add: ok_follow_def is_digit_def)

lemma parse_scalar:
  "parse_value (Suc m) (''null'' @ rest) = Some (JNull, rest)"
  "parse_value (Suc m) (''true'' @ rest) = Some (JBool True, rest)"
  "parse_value (Suc m) (''false'' @ rest) = Some (JBool False, rest)"
  "parse_value (Suc m) (quote s @ rest) = Some (JString s, rest)"
  by (simp_all add: skip_ws_def is_ws_def quote_def parse_chars_quoted)

lemma parse_number:
  assumes "ok_follow rest"
  shows "parse_value (Suc m)
           ((if n < 0 then CHR ''-'' # decimal (nat (- n)) else decimal (nat n)) @ rest)
         = Some (JNumber n, rest)"
proof (cases "n < 0")
  case True
  with parse_nat_decimal[OF assms, of "nat (- n)"] show ?thesis
    by (simp add: skip_ws_def is_ws_def)
next
  case False
  obtain c r where d: "decimal (nat n) = c # r" "is_digit c"
    using decimal_head by blast
  from parse_nat_decimal[OF assms, of "nat n"] have "parse_nat (c # r @ rest) = Some (nat n, rest)"
    by (simp add: d)
  with False d is_digit_start[OF d(2)] show ?thesis
    by (simp add: skip_ws_start)
qed

lemma parse_array_step:
  assumes "value_start c"
  shows "parse_value (Suc m) (CHR ''['' # c # r)
         = map_option (\<lambda>(vs, r''). (JArray vs, r'')) (parse_elements m (c # r))"
proof -
  from assms have "c \<noteq> CHR '']''" by (simp add: value_start_def)
  then show ?thesis
    by (simp add: skip_ws_punct skip_ws_start[OF assms])
qed

lemma parse_object_step:
  "parse_value (Suc m) (CHR ''{'' # CHR 0x22 # r)
   = map_option (\<lambda>(ms, r''). (JObject ms, r'')) (parse_members m (CHR 0x22 # r))"
  by (simp add: skip_ws_punct)

lemma plain_serialize: "plain v \<Longrightarrow> \<exists>t. serialize v = Some t"
  by (cases v) simp_all

lemma commas_cons:
  "ts \<noteq> [] \<Longrightarrow> commas (t # ts) = t @ CHR '','' # commas ts"
  by (cases ts) simp_all

lemma serialize_elements_empty: "serialize_elements vs = [] \<longleftrightarrow> vs = []"
  by (cases vs) simp_all

lemma plain_members_empty: "plain_members ms \<Longrightarrow> serialize_members ms = [] \<longleftrightarrow> ms = []"
proof (cases ms)
  case (Cons p ps)
  assume "plain_members ms"
  with Cons obtain t where "serialize (snd p) = Some t"
    using plain_serialize[of "snd p"] by (cases p) auto
  with Cons show ?thesis by (cases p) simp
qed simp

lemma parse_roundtrip:
  "plain v \<Longrightarrow> serialize v = Some t \<Longrightarrow> length t < n \<Longrightarrow> ok_follow rest \<Longrightarrow>
     parse_value n (t @ rest) = Some (v, rest)"
  "plain_elements vs \<Longrightarrow> vs \<noteq> [] \<Longrightarrow> length (commas (serialize_elements vs)) + 1 < n \<Longrightarrow>
     parse_elements n (commas (serialize_elements vs) @ CHR '']'' # rest) = Some (vs, rest)"
  "plain_members ms \<Longrightarrow> ms \<noteq> [] \<Longrightarrow> length (commas (serialize_members ms)) + 1 < n \<Longrightarrow>
     parse_members n (commas (serialize_members ms) @ CHR ''}'' # rest) = Some (ms, rest)"
proof (induction v and vs and ms arbitrary: t n rest and n rest and n rest
    rule: plain_plain_elements_plain_members.induct)
  case 1
  then show ?case by simp
next
  case (2 f)
  then show ?case by simp
next
  case 3
  then obtain m where "n = Suc m" by (cases n) auto
  moreover from 3 have "t = ''null''" by auto
  ultimately show ?case using parse_scalar(1)[of m rest] by (simp del: parse_value.simps)
next
  case (4 b)
  then obtain m where "n = Suc m" by (cases n) auto
  with 4 parse_scalar(2,3)[of m rest] show ?case by (cases b) (simp_all del: parse_value.simps)
next
  case (5 k)
  then obtain m where "n = Suc m" by (cases n) auto
  with 5 parse_number[of rest m k] show ?case by (simp del: parse_value.simps)
next
  case (6 s)
  then obtain m where "n = Suc m" by (cases n) auto
  with 6 parse_scalar(4)[of m s rest] show ?case by (simp del: parse_value.simps)
next
  case (7 vs)
  then obtain m where n: "n = Suc m" by (cases n) auto
  from 7 have t: "t = CHR ''['' # commas (serialize_elements vs) @ '']''" by auto
  show ?case
  proof (cases "vs = []")
    case True
    with t n show ?thesis
      by (simp add: skip_ws_def is_ws_def)
  next
    case False
    then obtain v vs' where vs: "vs = v # vs'" by (cases vs) auto
    from 7(2) vs obtain tv where tv: "serialize v = Some tv"
      using plain_serialize[of v] by auto
    then obtain c r where cr: "tv = c # r" "value_start c"
      using serialize_head by blast
    have hd: "\<exists>r'. commas (serialize_elements vs) = c # r'"
      using vs tv cr by (cases "serialize_elements vs'") (simp_all)
    then obtain r' where r': "commas (serialize_elements vs) = c # r'" by blast
    from 7(4) t n have len: "length (commas (serialize_elements vs)) + 1 < m" by simp
    from "7.IH"[OF _ False len, of rest] 7(2)
    have pe: "parse_elements m (commas (serialize_elements vs) @ CHR '']'' # rest) = Some (vs, rest)"
      by simp
    from pe show ?thesis
      by (simp add: t n r' parse_array_step[OF cr(2)] del: parse_value.simps)
  qed
next
  case (8 ms)
  then obtain m where n: "n = Suc m" by (cases n) auto
  from 8 have t: "t = CHR ''{'' # commas (serialize_members ms) @ ''}''" by auto
  show ?case
  proof (cases "ms = []")
    case True
    with t n show ?thesis
      by (simp add: skip_ws_def is_ws_def)
  next
    case False
    then obtain k v ms' where ms: "ms = (k, v) # ms'" by (cases ms) auto
    from 8(2) ms obtain tv where tv: "serialize v = Some tv"
      using plain_serialize[of v] by auto
    have hd: "\<exists>r'. commas (serialize_members ms) = CHR 0x22 # r'"
      using ms tv by (cases "serialize_members ms'") (simp_all add: quote_def)
    then obtain r' where r': "commas (serialize_members ms) = CHR 0x22 # r'" by blast
    from 8(4) t n have len: "length (commas (serialize_members ms)) + 1 < m" by simp
    from "8.IH"[OF _ False len, of rest] 8(2)
    have pe: "parse_members m (commas (serialize_members ms) @ CHR ''}'' # rest) = Some (ms, rest)"
      by simp
    from pe show ?thesis
      by (simp add: t n r' parse_object_step del: parse_value.simps)
  qed
next
  case 9
  then show ?case by simp
next
  case (10 v vs)
  then obtain m where n: "n = Suc m" by (cases n) auto
  from 10(3) have pv: "plain v" and pvs: "plain_elements vs" by simp_all
  from pv obtain tv where tv: "serialize v = Some tv"
    using plain_serialize by blast
  show ?case
  proof (cases "vs = []")
    case True
    with tv have c: "commas (serialize_elements (v # vs)) = tv" by simp
    from 10(5) c n have "length tv < m" by simp
    from "10.IH"(1)[OF pv tv this ok_follow_punct(2), of rest]
    show ?thesis
      by (simp add: tv n True skip_ws_punct)
  next
    case False
    then have se: "serialize_elements vs \<noteq> []"
      by (simp add: serialize_elements_empty)
    with tv have c: "commas (serialize_elements (v # vs))
        = tv @ CHR '','' # commas (serialize_elements vs)"
      by (simp add: commas_cons)
    from 10(5) c n have l1: "length tv < m"
      and l2: "length (commas (serialize_elements vs)) + 1 < m" by simp_all
    have p1: "parse_value m (tv @ CHR '','' # commas (serialize_elements vs) @ CHR '']'' # rest)
        = Some (v, CHR '','' # commas (serialize_elements vs) @ CHR '']'' # rest)"
      by (rule "10.IH"(1)[OF pv tv l1 ok_follow_punct(4)])
    have p2: "parse_elements m (commas (serialize_elements vs) @ CHR '']'' # rest) = Some (vs, rest)"
      by (rule "10.IH"(2)[OF pvs False l2])
    show ?thesis
      unfolding c n using p1 p2 by (simp add: skip_ws_punct)
  qed
next
  case 11
  then show ?case by simp
next
  case (12 k v ms)
  then obtain m where n: "n = Suc m" by (cases n) auto
  from 12(3) have pv: "plain v" and pms: "plain_members ms" by simp_all
  from pv obtain tv where tv: "serialize v = Some tv"
    using plain_serialize by blast
  have q: "quote k @ CHR '':'' # r
      = CHR 0x22 # concat (map escape_char k) @ CHR 0x22 # CHR '':'' # r" for r
    by (simp add: quote_def)
  show ?case
  proof (cases "ms = []")
    case True
    with tv have c: "commas (serialize_members ((k, v) # ms)) = quote k @ CHR '':'' # tv" by simp
    from 12(5) c n have "length tv < m" by simp
    from "12.IH"(1)[OF pv tv this ok_follow_punct(3), of rest]
    show ?thesis
      by (simp add: tv n True q skip_ws_punct parse_chars_quoted)
  next
    case False
    with pms have se: "serialize_members ms \<noteq> []"
      by (simp add: plain_members_empty)
    with tv have c: "commas (serialize_members ((k, v) # ms))
        = (quote k @ CHR '':'' # tv) @ CHR '','' # commas (serialize_members ms)"
      by (simp add: commas_cons)
    from 12(5) c n have l1: "length tv < m"
      and l2: "length (commas (serialize_members ms)) + 1 < m" by simp_all
    have p1: "parse_value m (tv @ CHR '','' # commas (serialize_members ms) @ CHR ''}'' # rest)
        = Some (v, CHR '','' # commas (serialize_members ms) @ CHR ''}'' # rest)"
      by (rule "12.IH"(1)[OF pv tv l1 ok_follow_punct(4)])
    have p2: "parse_members m (commas (serialize_members ms) @ CHR ''}'' # rest) = Some (ms, rest)"
      by (rule "12.IH"(2)[OF pms False l2])
    show ?thesis
      unfolding c n using p1 p2 by (simp add: q skip_ws_punct parse_chars_quoted)
  qed
qed

lemma reference_JSON_plain_serializable:
  "plain v \<Longrightarrow> json_serializable reference_JSON v"
proof -
  assume p: "plain v"
  then obtain t where t: "serialize v = Some t"
    using plain_serialize by blast
  then obtain c r where "t = c # r" using serialize_head by blast
  then have ne: "t \<noteq> []" by simp
  from parse_roundtrip(1)[OF p t _ ok_follow_punct(1), of "Suc (length t)"]
  have "parse_value (Suc (length t)) t = Some (v, [])" by simp
  with t ne show ?thesis
    by (simp add: json_serializable_def reference_JSON_def parse_text_def skip_ws_def)
qed

section \<open>Facts about the accessors\<close>

lemma fallback_default_chain: "fallback key d configs = default_chain key d configs"
  by (simp add: fallback_def default_chain_def nullish_coalesce_def getDefaultFromConfigs_def
      split: option.splits)

lemma setLocalStorage_stores:
  assumes "window_defined b" "setItem_throws b k (to_DOMString (storageValue J v)) = None"
    "getItem_throws b k = None"
  shows "window_defined (setLocalStorage J b k v)"
    and "getItem (setLocalStorage J b k v) k = Inr (Some (to_DOMString (storageValue J v)))"
  using assms
  by (simp_all add: setLocalStorage_def setItem_def getItem_def dispatchEvent_def)

text \<open>What \<^verbatim>\<open>setLocalStorage\<close> catches goes to \<^verbatim>\<open>console.error\<close>, and nothing is written.\<close>

lemma setLocalStorage_catches:
  assumes "window_defined b"
    and "setItem_throws b k (to_DOMString (storageValue J v)) = Some e"
  shows "setLocalStorage J b k v = b\<lparr>console_error := console_error b @ [e]\<rparr>"
  using assms by (simp add: setLocalStorage_def setItem_def)

text \<open>
  The event of a write: its \<^verbatim>\<open>oldValue\<close> is read after \<^verbatim>\<open>setItem\<close>, so it is the
  text just written.
\<close>

lemma setLocalStorage_event:
  assumes "window_defined b"
    and "setItem_throws b k (to_DOMString (storageValue J v)) = None"
    and "getItem_throws b k = None"
  shows "dispatched (setLocalStorage J b k v)
         = dispatched b @
           [\<lparr>ev_key = Some k, ev_newValue = storageValue J v,
             ev_oldValue = Some (to_DOMString (storageValue J v)),
             ev_storageArea_is_localStorage = True\<rparr>]"
  using assms by (simp add: setLocalStorage_def setItem_def getItem_def dispatchEvent_def)

lemma reference_serializable_settings:
  "json_serializable reference_JSON (JObject [(''darkMode'', JBool True)])"
  by (rule reference_JSON_plain_serializable) simp

section \<open>Facts about the cell\<close>

lemma handleStorageChange_frame:
  "cell_key (handleStorageChange J c e) = cell_key c"
  "cell_defaultValue (handleStorageChange J c e) = cell_defaultValue c"
  "cell_listening (handleStorageChange J c e) = cell_listening c"
  by (simp_all add: handleStorageChange_def split: option.splits)

lemma deliver_frame:
  "cell_key (deliver J e c) = cell_key c"
  "cell_defaultValue (deliver J e c) = cell_defaultValue c"
  "cell_listening (deliver J e c) = cell_listening c"
  by (simp_all add: deliver_def handleStorageChange_frame)

lemma deliver_removal:
  "ev_newValue e = None \<Longrightarrow> cell_value c = cell_defaultValue c \<Longrightarrow>
   cell_value (deliver J e c) = cell_defaultValue c"
  by (simp add: deliver_def handleStorageChange_def)

text \<open>A storage exception leaves \<^verbatim>\<open>setStoredValue\<close>; the state change stands.\<close>

lemma setStoredValue_throws:
  assumes "window_defined b"
    and "setItem_throws b (cell_key c) (to_DOMString (storageValue J v)) = Some e"
  shows "setStoredValue J b c (Value v) = (Some e, b, c\<lparr>cell_value := v\<rparr>)"
  using assms by (simp add: setStoredValue_def setItem_def Let_def)

lemma setStoredValue_event:
  assumes "window_defined b"
    and "setItem_throws b (cell_key c) (to_DOMString (storageValue J v)) = None"
    and "getItem_throws b (cell_key c) = None"
  shows "dispatched (browser_after (setStoredValue J b c (Value v)))
         = dispatched b @
           [\<lparr>ev_key = Some (cell_key c), ev_newValue = storageValue J v,
             ev_oldValue = Some (to_DOMString (storageValue J v)),
             ev_storageArea_is_localStorage = True\<rparr>]"
  using assms
  by (simp add: setStoredValue_def setItem_def getItem_def dispatchEvent_def browser_after_def
      Let_def)

text \<open>The event of a removal carries the text that was stored before it.\<close>

lemma remove_event:
  assumes "window_defined b"
    and "getItem_throws b (cell_key c) = None"
    and "removeItem_throws b (cell_key c) = None"
  shows "dispatched (browser_after (remove J b c))
         = dispatched b @
           [\<lparr>ev_key = Some (cell_key c), ev_newValue = None,
             ev_oldValue = localStorage b (cell_key c),
             ev_storageArea_is_localStorage = True\<rparr>]"
  using assms
  by (simp add: remove_def removeItem_def getItem_def dispatchEvent_def browser_after_def
      Let_def)

lemma remove_cell:
  "cell_value (state_after (remove J b c)) = cell_defaultValue c"
  "cell_key (state_after (remove J b c)) = cell_key c"
  "cell_defaultValue (state_after (remove J b c)) = cell_defaultValue c"
  by (simp_all add: remove_def state_after_def Let_def deliver_frame deliver_removal
      split: sum.splits)

lemma remove_browser:
  "window_defined (browser_after (remove J b c)) = window_defined b"
  "getItem_throws (browser_after (remove J b c)) = getItem_throws b"
  "removeItem_throws (browser_after (remove J b c)) = removeItem_throws b"
  by (auto simp: remove_def browser_after_def Let_def getItem_def removeItem_def dispatchEvent_def
      split: sum.splits option.splits)

lemma remove_succeeds:
  assumes "window_defined b" "getItem_throws b (cell_key c) = None"
    "removeItem_throws b (cell_key c) = None"
  shows "thrown (remove J b c) = None"
    and "localStorage (browser_after (remove J b c)) (cell_key c) = None"
  using assms
  by (simp_all add: remove_def thrown_def browser_after_def Let_def getItem_def removeItem_def
      dispatchEvent_def)

text \<open>
  The cell's own listener gives a value that reads back to the cell again, so the
  write leaves it in the state.
\<close>

lemma reads_back_deliver:
  assumes "reads_back J (cell_defaultValue c) x" "cell_value c = x"
  shows "cell_value (deliver J
           \<lparr>ev_key = Some (cell_key c), ev_newValue = storageValue J x, ev_oldValue = old,
            ev_storageArea_is_localStorage = True\<rparr> c) = x"
proof (cases "is_string x")
  case True
  then obtain t where x: "x = JString t" by (cases x) simp_all
  with assms(1) have d: "is_string (cell_defaultValue c)"
    and e: "t = [] \<Longrightarrow> cell_defaultValue c = JString []"
    by (auto simp: reads_back_def)
  show ?thesis
  proof (cases "t = []")
    case True
    with x e assms(2) show ?thesis
      by (simp add: deliver_def handleStorageChange_def storageValue_def)
  next
    case False
    with x d assms(2) show ?thesis
      by (simp add: deliver_def handleStorageChange_def storageValue_def)
  qed
next
  case False
  then have sv: "storageValue J x = JSON_stringify J x"
    by (cases x) (simp_all add: storageValue_def)
  from False assms(1) have "\<not> is_string (cell_defaultValue c)" "json_serializable J x"
    by (cases x; simp add: reads_back_def)+
  with assms(2) sv show ?thesis
    by (auto simp: deliver_def handleStorageChange_def json_serializable_def
        split: option.splits)
qed

lemma setStoredValue_reads_back:
  assumes "reads_back J (cell_defaultValue c) x"
  shows "cell_value (state_after (setStoredValue J b c (Value x))) = x"
proof -
  have "cell_value (deliver J
           \<lparr>ev_key = Some (cell_key c), ev_newValue = storageValue J x, ev_oldValue = old,
            ev_storageArea_is_localStorage = True\<rparr> (c\<lparr>cell_value := x\<rparr>)) = x" for old
    using reads_back_deliver[of J "c\<lparr>cell_value := x\<rparr>" x old] assms by simp
  then show ?thesis
    by (simp add: setStoredValue_def state_after_def Let_def split: sum.splits)
qed

text \<open>Without a notification the write leaves the requested value in the state.\<close>

lemma setStoredValue_unnotified:
  assumes "\<not> write_notifies J b c x"
  shows "cell_value (state_after (setStoredValue J b c (Value x))) = x"
  using assms
  by (auto simp: write_notifies_def setStoredValue_def state_after_def setItem_def getItem_def
      deliver_def Let_def split: option.splits)

section \<open>Facts about the draft overlay\<close>

lemma save_state:
  "storedValue (state_after (save J other b dc))
     = cell_value (state_after (setStoredValue J b (overlay_cell dc) (Value (draftValue dc))))"
  "draftValue (state_after (save J other b dc)) = draftValue dc
   \<or> draftValue (state_after (save J other b dc)) = storedValue (state_after (save J other b dc))"
  by (auto simp: save_def state_after_def sync_draft_def storedValue_def split: prod.splits)

section \<open>The claims\<close>

text \<open>
  C1. The claim: a storage exception raised while \<^verbatim>\<open>setStoredValue\<close> persists the
  value is caught inside the call, and the local state keeps the requested value. The
  code at a storage area that is full: \<^verbatim>\<open>setStoredValue\<close> hands the
  \<^verbatim>\<open>QuotaExceededError\<close> of \<^verbatim>\<open>setItem\<close> to its caller (the state does keep the
  requested value), where \<^verbatim>\<open>setLocalStorage\<close> catches it and reports it.
\<close>

theorem setStoredValue_quota_exceeded:
  "thrown (setStoredValue reference_JSON full_browser
     (useLocalStorage reference_JSON full_browser ''k'' (JString ''d'')) (Value (JString ''v'')))
   = Some QuotaExceededError
   \<and> cell_value (state_after (setStoredValue reference_JSON full_browser
        (useLocalStorage reference_JSON full_browser ''k'' (JString ''d'')) (Value (JString ''v''))))
     = JString ''v''
   \<and> console_error (setLocalStorage reference_JSON full_browser ''k'' (JString ''v''))
     = [QuotaExceededError]"
  by (simp add: setStoredValue_def setLocalStorage_def thrown_def state_after_def
      full_browser_def working_browser_def setItem_def useLocalStorage_def)

text \<open>
  C2. The claim: the notification of a write or a removal carries the key, the text
  stored before the operation and the new text. The code with \<^verbatim>\<open>a\<close> stored under the
  key and \<^verbatim>\<open>b\<close> written: the event of \<^verbatim>\<open>setLocalStorage\<close> and the event of
  \<^verbatim>\<open>setStoredValue\<close> both carry \<^verbatim>\<open>b\<close> as the old value; the event of \<^verbatim>\<open>remove\<close>
  carries \<^verbatim>\<open>a\<close>.
\<close>

theorem write_event_oldValue:
  "dispatched (setLocalStorage reference_JSON
     (working_browser\<lparr>localStorage := [''k'' \<mapsto> ''a'']\<rparr>) ''k'' (JString ''b''))
   = [\<lparr>ev_key = Some ''k'', ev_newValue = Some ''b'', ev_oldValue = Some ''b'',
       ev_storageArea_is_localStorage = True\<rparr>]
   \<and> dispatched (browser_after (setStoredValue reference_JSON
        (working_browser\<lparr>localStorage := [''k'' \<mapsto> ''a'']\<rparr>)
        (useLocalStorage reference_JSON
           (working_browser\<lparr>localStorage := [''k'' \<mapsto> ''a'']\<rparr>) ''k'' (JString ''d''))
        (Value (JString ''b''))))
   = [\<lparr>ev_key = Some ''k'', ev_newValue = Some ''b'', ev_oldValue = Some ''b'',
       ev_storageArea_is_localStorage = True\<rparr>]
   \<and> dispatched (browser_after (remove reference_JSON
        (working_browser\<lparr>localStorage := [''k'' \<mapsto> ''a'']\<rparr>)
        (useLocalStorage reference_JSON
           (working_browser\<lparr>localStorage := [''k'' \<mapsto> ''a'']\<rparr>) ''k'' (JString ''d''))))
   = [\<lparr>ev_key = Some ''k'', ev_newValue = None, ev_oldValue = Some ''a'',
       ev_storageArea_is_localStorage = True\<rparr>]"
  by (simp add: setLocalStorage_event setStoredValue_event remove_event working_browser_def
      useLocalStorage_def storageValue_def to_DOMString_def)

text \<open>
  C3, amended. With a window and a storage area that takes the write and answers the
  read: for every key \<open>k\<close>, every string default \<open>d\<close> and every string \<open>t\<close>, after
  \<^verbatim>\<open>setLocalStorage(k, t)\<close> the \<^verbatim>\<open>getLocalStorage(k, d)\<close> of
  src/src/useLocalStorage.ts returns \<open>t\<close> unchanged (and \<^verbatim>\<open>isNull\<close> false), whatever
  the configs; the \<^verbatim>\<open>getLocalStorage(k, d)\<close> of src/unnamed/part_003 returns \<open>t\<close>
  unchanged when \<open>t\<close> is not empty, and \<open>d\<close> when it is.
\<close>

theorem setLocalStorage_getLocalStorage_string:
  assumes "window_defined b"
    and "setItem_throws b k t = None"
    and "getItem_throws b k = None"
    and "is_string d"
  shows "getLocalStorage J (setLocalStorage J b k (JString t)) k d configs
           = Inr \<lparr>r_value = JString t, r_isNull = False\<rparr>
         \<and> getLocalStorage_part_003 J (setLocalStorage J b k (JString t)) k d
           = Inr (if t = [] then d else JString t)"
proof -
  have sv: "to_DOMString (storageValue J (JString t)) = t"
    by (simp add: storageValue_def to_DOMString_def)
  from assms(2) have "setItem_throws b k (to_DOMString (storageValue J (JString t))) = None"
    by (simp add: sv)
  note st = setLocalStorage_stores[OF assms(1) this assms(3), unfolded sv]
  from assms(4) have nn: "nullish_coalesce d JNull = d"
    by (cases d) (simp_all add: nullish_coalesce_def)
  from st assms(4) nn show ?thesis
    by (simp add: getLocalStorage_def getLocalStorage_part_003_def)
qed

theorem setLocalStorage_getLocalStorage_string_witness:
  "window_defined working_browser \<and> is_string (JString ''light'')
   \<and> getLocalStorage reference_JSON
        (setLocalStorage reference_JSON working_browser ''theme'' (JString ''dark''))
        ''theme'' (JString ''light'') None
     = Inr \<lparr>r_value = JString ''dark'', r_isNull = False\<rparr>
   \<and> getLocalStorage_part_003 reference_JSON
        (setLocalStorage reference_JSON working_browser ''theme'' (JString ''dark''))
        ''theme'' (JString ''light'')
     = Inr (JString ''dark'')"
proof -
  have w: "window_defined working_browser"
    and s: "setItem_throws working_browser ''theme'' ''dark'' = None"
    and g: "getItem_throws working_browser ''theme'' = None"
    by (simp_all add: working_browser_def)
  have d: "is_string (JString ''light'')" by simp
  show ?thesis
    using setLocalStorage_getLocalStorage_string [OF w s g d, of reference_JSON None] w d
    by simp
qed

text \<open>
  The claim as written fails on the variant of src/unnamed/part_003: the empty string,
  written with a working storage area, reads back as the default.
\<close>

theorem part_003_empty_string_counterexample:
  "getLocalStorage_part_003 reference_JSON
     (setLocalStorage reference_JSON working_browser ''k'' (JString ''''))
     ''k'' (JString ''d'')
   = Inr (JString ''d'')
   \<and> getLocalStorage_part_003 reference_JSON
        (setLocalStorage reference_JSON working_browser ''k'' (JString ''''))
        ''k'' (JString ''d'')
     \<noteq> Inr (JString '''')"
  by (simp add: getLocalStorage_part_003_def setLocalStorage_def working_browser_def
      setItem_def getItem_def dispatchEvent_def storageValue_def to_DOMString_def
      nullish_coalesce_def)

text \<open>
  C4. With a window and a storage area that takes the write and answers the read: for
  every key \<open>k\<close> and every JSON-serializable value \<open>v\<close> that is not a string,
  \<^verbatim>\<open>getLocalStorage(k, d)\<close> after \<^verbatim>\<open>setLocalStorage(k, v)\<close>, with a default \<open>d\<close>
  that is not a string, returns \<open>v\<close> (and \<^verbatim>\<open>isNull\<close> false), whatever the configs.
\<close>

theorem setLocalStorage_getLocalStorage_json:
  assumes "window_defined b"
    and "setItem_throws b k (to_DOMString (storageValue J v)) = None"
    and "getItem_throws b k = None"
    and "\<not> is_string v" and "\<not> is_string d"
    and "json_serializable J v"
  shows "getLocalStorage J (setLocalStorage J b k v) k d configs
         = Inr \<lparr>r_value = v, r_isNull = False\<rparr>"
proof -
  from assms(6) obtain t where t: "JSON_stringify J v = Some t" "JSON_parse J t = Some v"
    by (auto simp: json_serializable_def split: option.splits)
  from assms(4) have "storageValue J v = Some t"
    using t(1) by (cases v) (simp_all add: storageValue_def)
  then have "to_DOMString (storageValue J v) = t"
    by (simp add: to_DOMString_def)
  with setLocalStorage_stores[OF assms(1-3)] assms(5) t(2) show ?thesis
    by (simp add: getLocalStorage_def)
qed

theorem setLocalStorage_getLocalStorage_json_witness:
  "window_defined working_browser
   \<and> \<not> is_string (JObject [(''darkMode'', JBool True)])
   \<and> \<not> is_string (JObject [(''darkMode'', JBool False)])
   \<and> json_serializable reference_JSON (JObject [(''darkMode'', JBool True)])
   \<and> getLocalStorage reference_JSON
        (setLocalStorage reference_JSON working_browser ''settings''
           (JObject [(''darkMode'', JBool True)]))
        ''settings'' (JObject [(''darkMode'', JBool False)]) None
     = Inr \<lparr>r_value = JObject [(''darkMode'', JBool True)], r_isNull = False\<rparr>"
proof -
  have w: "window_defined working_browser"
    and s: "setItem_throws working_browser ''settings''
              (to_DOMString (storageValue reference_JSON (JObject [(''darkMode'', JBool True)]))) = None"
    and g: "getItem_throws working_browser ''settings'' = None"
    by (simp_all add: working_browser_def)
  have v: "\<not> is_string (JObject [(''darkMode'', JBool True)])"
    and d: "\<not> is_string (JObject [(''darkMode'', JBool False)])"
    by simp_all
  show ?thesis
    using setLocalStorage_getLocalStorage_json
      [OF w s g v d reference_serializable_settings, of None]
      w v d reference_serializable_settings
    by simp
qed

text \<open>
  C5. For every key and every default value, in every environment: if the storage area
  holds the empty string under the key, the value of the cell after its lazy
  initializer is the default value.
\<close>

theorem initializer_empty_string_is_default:
  "localStorage b key = Some [] \<Longrightarrow> cell_value (useLocalStorage J b key d) = d"
  by (simp add: useLocalStorage_def useLocalStorage_initializer_def getItem_def
      split: option.splits)

theorem initializer_empty_string_is_default_witness:
  "localStorage (working_browser\<lparr>localStorage := [''note'' \<mapsto> '''']\<rparr>) ''note'' = Some ''''
   \<and> cell_value (useLocalStorage reference_JSON
        (working_browser\<lparr>localStorage := [''note'' \<mapsto> '''']\<rparr>) ''note'' (JString ''hello''))
     = JString ''hello''"
  using initializer_empty_string_is_default
    [of "working_browser\<lparr>localStorage := [''note'' \<mapsto> '''']\<rparr>" "''note''" reference_JSON "JString ''hello''"]
  by (simp add: working_browser_def)

text \<open>
  C6, amended. While the listener is attached, for every notification with the cell's
  key and storage area: if the new stored text is absent or empty, the cell adopts the
  default value; otherwise, under a string default it adopts the new text verbatim, and
  under a default that is not a string it adopts the parsed value, or the default value
  when the text does not parse.
\<close>

theorem storage_event_adoption:
  assumes "cell_listening c"
    and "ev_key e = Some (cell_key c)"
    and "ev_storageArea_is_localStorage e"
  shows "(ev_newValue e = None \<or> ev_newValue e = Some [] \<longrightarrow>
            cell_value (deliver J e c) = cell_defaultValue c)
       \<and> (\<forall>t. ev_newValue e = Some t \<and> t \<noteq> [] \<and> is_string (cell_defaultValue c) \<longrightarrow>
            cell_value (deliver J e c) = JString t)
       \<and> (\<forall>t v. ev_newValue e = Some t \<and> t \<noteq> [] \<and> \<not> is_string (cell_defaultValue c)
              \<and> JSON_parse J t = Some v \<longrightarrow>
            cell_value (deliver J e c) = v)
       \<and> (\<forall>t. ev_newValue e = Some t \<and> t \<noteq> [] \<and> \<not> is_string (cell_defaultValue c)
              \<and> JSON_parse J t = None \<longrightarrow>
            cell_value (deliver J e c) = cell_defaultValue c)"
  using assms by (auto simp: deliver_def handleStorageChange_def)

theorem storage_event_adoption_witness:
  "cell_listening (useLocalStorage reference_JSON working_browser ''flags'' (JArray []))
   \<and> cell_value (deliver reference_JSON
        \<lparr>ev_key = Some ''flags'', ev_newValue = Some ''[true,null]'', ev_oldValue = None,
         ev_storageArea_is_localStorage = True\<rparr>
        (useLocalStorage reference_JSON working_browser ''flags'' (JArray [])))
     = JArray [JBool True, JNull]"
proof -
  let ?c = "useLocalStorage reference_JSON working_browser ''flags'' (JArray [])"
  let ?e = "\<lparr>ev_key = Some ''flags'', ev_newValue = Some ''[true,null]'', ev_oldValue = None,
         ev_storageArea_is_localStorage = True\<rparr>"
  have l: "cell_listening ?c"
    by (simp add: useLocalStorage_def working_browser_def)
  have k: "ev_key ?e = Some (cell_key ?c)" and a: "ev_storageArea_is_localStorage ?e"
    by (simp_all add: useLocalStorage_def)
  have p: "JSON_parse reference_JSON ''[true,null]'' = Some (JArray [JBool True, JNull])"
    by (simp add: reference_JSON_def parse_text_def skip_ws_def is_ws_def)
  have d: "\<not> is_string (cell_defaultValue ?c)"
    by (simp add: useLocalStorage_def)
  from storage_event_adoption [OF l k a, of reference_JSON] p d l show ?thesis
    by simp
qed

text \<open>
  The claim as written fails where the new stored text is the empty string and the
  default is a string: the text is not absent, and the cell adopts the default.
\<close>

theorem storage_event_empty_text_counterexample:
  "cell_value (deliver reference_JSON
     \<lparr>ev_key = Some ''k'', ev_newValue = Some '''', ev_oldValue = Some ''v'',
      ev_storageArea_is_localStorage = True\<rparr>
     \<lparr>cell_key = ''k'', cell_defaultValue = JString ''d'', cell_value = JString ''v'',
      cell_listening = True\<rparr>)
   = JString ''d''
   \<and> cell_value (deliver reference_JSON
     \<lparr>ev_key = Some ''k'', ev_newValue = Some '''', ev_oldValue = Some ''v'',
      ev_storageArea_is_localStorage = True\<rparr>
     \<lparr>cell_key = ''k'', cell_defaultValue = JString ''d'', cell_value = JString ''v'',
      cell_listening = True\<rparr>)
   \<noteq> JString ''''"
  by (simp add: deliver_def handleStorageChange_def)

text \<open>
  C7, amended. In \<^verbatim>\<open>useDraftLocalStorage\<close>: \<^verbatim>\<open>hasChanges\<close> is true exactly when the
  JSON serializations of the draft and of the committed value differ; after
  \<^verbatim>\<open>setDraftValue(x)\<close> where \<open>x\<close> differs by serialized form from the committed value,
  \<^verbatim>\<open>hasChanges\<close> is true and the committed value is unchanged; after \<^verbatim>\<open>save()\<close>, the
  committed value and the draft equal \<open>x\<close> and \<^verbatim>\<open>hasChanges\<close> is false when \<open>x\<close> reads
  back (under a string default, any string but the empty string under a default that
  is not empty; under a default that is not a string, a JSON-serializable value that is
  not a string), and also when the notification of the write does not reach the cell's
  own listener; after \<^verbatim>\<open>reset()\<close> without \<^verbatim>\<open>save()\<close>, the draft equals the committed
  value and \<^verbatim>\<open>hasChanges\<close> is false.
\<close>

theorem draft_divergence:
  "hasChanges J dc = (JSON_stringify J (draftValue dc) \<noteq> JSON_stringify J (storedValue dc))
   \<and> (JSON_stringify J x \<noteq> JSON_stringify J (storedValue dc) \<longrightarrow>
        hasChanges J (setDraftValue x dc)
        \<and> storedValue (setDraftValue x dc) = storedValue dc)
   \<and> (reads_back J (cell_defaultValue (overlay_cell dc)) x
        \<or> \<not> write_notifies J b (overlay_cell dc) x \<longrightarrow>
        storedValue (state_after (save J other b (setDraftValue x dc))) = x
        \<and> draftValue (state_after (save J other b (setDraftValue x dc))) = x
        \<and> \<not> hasChanges J (state_after (save J other b (setDraftValue x dc))))
   \<and> draftValue (reset (setDraftValue x dc)) = storedValue dc
   \<and> storedValue (reset (setDraftValue x dc)) = storedValue dc
   \<and> \<not> hasChanges J (reset (setDraftValue x dc))"
proof -
  have a: "hasChanges J dc = (JSON_stringify J (draftValue dc) \<noteq> JSON_stringify J (storedValue dc))"
    by (simp add: hasChanges_def)
  have b: "hasChanges J (setDraftValue x dc) \<and> storedValue (setDraftValue x dc) = storedValue dc"
    if "JSON_stringify J x \<noteq> JSON_stringify J (storedValue dc)"
    using that by (simp add: hasChanges_def setDraftValue_def storedValue_def)
  have c: "storedValue (state_after (save J other b (setDraftValue x dc))) = x
        \<and> draftValue (state_after (save J other b (setDraftValue x dc))) = x
        \<and> \<not> hasChanges J (state_after (save J other b (setDraftValue x dc)))"
    if rb: "reads_back J (cell_defaultValue (overlay_cell dc)) x
        \<or> \<not> write_notifies J b (overlay_cell dc) x"
  proof -
    let ?dc = "setDraftValue x dc"
    have dv: "draftValue ?dc = x" and oc: "overlay_cell ?dc = overlay_cell dc"
      by (simp_all add: setDraftValue_def)
    have s: "storedValue (state_after (save J other b ?dc)) = x"
      using rb setStoredValue_reads_back[of J "overlay_cell dc" x b]
        setStoredValue_unnotified[of J b "overlay_cell dc" x]
      by (auto simp: save_state(1) dv oc)
    have d: "draftValue (state_after (save J other b ?dc)) = x"
      using save_state(2)[of J other b ?dc] s dv by auto
    from s d show ?thesis by (simp add: hasChanges_def)
  qed
  have d: "draftValue (reset (setDraftValue x dc)) = storedValue dc
   \<and> storedValue (reset (setDraftValue x dc)) = storedValue dc
   \<and> \<not> hasChanges J (reset (setDraftValue x dc))"
    by (simp add: reset_def setDraftValue_def storedValue_def hasChanges_def)
  from a b c d show ?thesis by blast
qed

theorem draft_divergence_witness:
  "JSON_stringify reference_JSON (dark_mode True)
     \<noteq> JSON_stringify reference_JSON (storedValue settings_overlay)
   \<and> reads_back reference_JSON (cell_defaultValue (overlay_cell settings_overlay)) (dark_mode True)
   \<and> hasChanges reference_JSON (setDraftValue (dark_mode True) settings_overlay)
   \<and> storedValue (state_after (save reference_JSON True working_browser
        (setDraftValue (dark_mode True) settings_overlay)))
     = dark_mode True
   \<and> \<not> hasChanges reference_JSON (state_after (save reference_JSON True working_browser
        (setDraftValue (dark_mode True) settings_overlay)))
   \<and> draftValue (reset (setDraftValue (dark_mode True) settings_overlay)) = dark_mode False
   \<and> storedValue note_overlay = JString ''buy milk''
   \<and> reads_back reference_JSON (cell_defaultValue (overlay_cell note_overlay)) (JString '''')
   \<and> hasChanges reference_JSON (setDraftValue (JString '''') note_overlay)
   \<and> storedValue (state_after (save reference_JSON False saved_note_browser
        (setDraftValue (JString '''') note_overlay)))
     = JString ''''
   \<and> \<not> hasChanges reference_JSON (state_after (save reference_JSON False saved_note_browser
        (setDraftValue (JString '''') note_overlay)))"
proof -
  have sv: "storedValue settings_overlay = dark_mode False"
    and dv: "cell_defaultValue (overlay_cell settings_overlay) = dark_mode False"
    by (simp_all add: settings_overlay_def useDraftLocalStorage_def useLocalStorage_def
        useLocalStorage_initializer_def storedValue_def working_browser_def getItem_def Let_def)
  have ne: "JSON_stringify reference_JSON (dark_mode True)
     \<noteq> JSON_stringify reference_JSON (storedValue settings_overlay)"
    by (simp add: sv dark_mode_def reference_JSON_def quote_def escape_char_def)
  have rb: "reads_back reference_JSON (cell_defaultValue (overlay_cell settings_overlay))
     (dark_mode True)"
    using reference_serializable_settings by (simp add: dv reads_back_def dark_mode_def)
  have nsv: "storedValue note_overlay = JString ''buy milk''"
    and ndv: "cell_defaultValue (overlay_cell note_overlay) = JString ''''"
    by (simp_all add: note_overlay_def saved_note_browser_def useDraftLocalStorage_def
        useLocalStorage_def useLocalStorage_initializer_def storedValue_def working_browser_def
        getItem_def Let_def)
  have nne: "JSON_stringify reference_JSON (JString '''')
     \<noteq> JSON_stringify reference_JSON (storedValue note_overlay)"
    by (simp add: nsv reference_JSON_def quote_def escape_char_def)
  have nrb: "reads_back reference_JSON (cell_defaultValue (overlay_cell note_overlay))
     (JString '''')"
    by (simp add: ndv reads_back_def)
  from draft_divergence
    [where J = reference_JSON and dc = settings_overlay and x = "dark_mode True"
       and other = True and b = working_browser] ne rb sv
  have first: "hasChanges reference_JSON (setDraftValue (dark_mode True) settings_overlay)
   \<and> storedValue (state_after (save reference_JSON True working_browser
        (setDraftValue (dark_mode True) settings_overlay)))
     = dark_mode True
   \<and> \<not> hasChanges reference_JSON (state_after (save reference_JSON True working_browser
        (setDraftValue (dark_mode True) settings_overlay)))
   \<and> draftValue (reset (setDraftValue (dark_mode True) settings_overlay)) = dark_mode False"
    by simp
  from draft_divergence
    [where J = reference_JSON and dc = note_overlay and x = "JString []"
       and other = False and b = saved_note_browser] nne nrb
  have second: "hasChanges reference_JSON (setDraftValue (JString '''') note_overlay)
   \<and> storedValue (state_after (save reference_JSON False saved_note_browser
        (setDraftValue (JString '''') note_overlay)))
     = JString ''''
   \<and> \<not> hasChanges reference_JSON (state_after (save reference_JSON False saved_note_browser
        (setDraftValue (JString '''') note_overlay)))"
    by simp
  from ne rb nsv nrb first second show ?thesis by simp
qed

text \<open>
  The claim as written fails after \<^verbatim>\<open>save()\<close> where \<open>x\<close> is the empty string and the
  default is another string, in a browser with a working storage area: the cell's own
  listener receives the notification of the write, finds its new text empty, and sets
  the committed value to the default.
\<close>

theorem save_empty_string_counterexample:
  "storedValue (state_after (save reference_JSON False working_browser
     (setDraftValue (JString '''')
        (useDraftLocalStorage reference_JSON working_browser ''note'' (JString ''hello'')))))
   = JString ''hello''
   \<and> storedValue (state_after (save reference_JSON False working_browser
     (setDraftValue (JString '''')
        (useDraftLocalStorage reference_JSON working_browser ''note'' (JString ''hello'')))))
   \<noteq> JString ''''"
  by (simp add: save_def setDraftValue_def useDraftLocalStorage_def useLocalStorage_def
      useLocalStorage_initializer_def working_browser_def getItem_def setItem_def
      setStoredValue_def storageValue_def to_DOMString_def dispatchEvent_def deliver_def
      handleStorageChange_def sync_draft_def storedValue_def state_after_def Let_def)

text \<open>
  C8. For every key and default value, calling \<^verbatim>\<open>remove()\<close> twice in succession
  leaves the cell's value equal to the default value after each call, in every
  environment; with a window and a storage area that answers the read and takes the
  removal, both calls return and the storage area holds no entry for the key after
  each.
\<close>

theorem remove_twice:
  "cell_value (state_after (remove J b c)) = cell_defaultValue c
   \<and> cell_value (state_after (remove J (browser_after (remove J b c)) (state_after (remove J b c))))
     = cell_defaultValue c
   \<and> (window_defined b \<and> getItem_throws b (cell_key c) = None
        \<and> removeItem_throws b (cell_key c) = None \<longrightarrow>
      thrown (remove J b c) = None
      \<and> localStorage (browser_after (remove J b c)) (cell_key c) = None
      \<and> thrown (remove J (browser_after (remove J b c)) (state_after (remove J b c))) = None
      \<and> localStorage
           (browser_after (remove J (browser_after (remove J b c)) (state_after (remove J b c))))
           (cell_key c) = None)"
proof -
  let ?r1 = "remove J b c"
  let ?b1 = "browser_after ?r1" and ?c1 = "state_after ?r1"
  have v1: "cell_value ?c1 = cell_defaultValue c"
    by (rule remove_cell)
  have v2: "cell_value (state_after (remove J ?b1 ?c1)) = cell_defaultValue c"
    by (simp add: remove_cell)
  have st: "thrown ?r1 = None \<and> localStorage ?b1 (cell_key c) = None
      \<and> thrown (remove J ?b1 ?c1) = None
      \<and> localStorage (browser_after (remove J ?b1 ?c1)) (cell_key c) = None"
    if h: "window_defined b" "getItem_throws b (cell_key c) = None"
      "removeItem_throws b (cell_key c) = None"
  proof -
    have h1: "window_defined ?b1" "getItem_throws ?b1 (cell_key ?c1) = None"
      "removeItem_throws ?b1 (cell_key ?c1) = None"
      using h by (simp_all add: remove_browser remove_cell)
    from remove_succeeds[OF h] remove_succeeds[OF h1] show ?thesis
      by (simp add: remove_cell)
  qed
  from v1 v2 st show ?thesis by blast
qed

theorem remove_twice_witness:
  "window_defined note_browser
   \<and> localStorage note_browser ''note'' = Some ''draft text''
   \<and> cell_value note_cell = JString ''draft text''
   \<and> cell_value (state_after (remove reference_JSON note_browser note_cell)) = JString ''hello''
   \<and> localStorage (browser_after (remove reference_JSON note_browser note_cell)) ''note'' = None
   \<and> cell_value (state_after (remove reference_JSON
        (browser_after (remove reference_JSON note_browser note_cell))
        (state_after (remove reference_JSON note_browser note_cell))))
     = JString ''hello''
   \<and> localStorage (browser_after (remove reference_JSON
        (browser_after (remove reference_JSON note_browser note_cell))
        (state_after (remove reference_JSON note_browser note_cell))))
        ''note'' = None"
proof -
  have c: "cell_key note_cell = ''note''" "cell_defaultValue note_cell = JString ''hello''"
    "cell_value note_cell = JString ''draft text''"
    by (simp_all add: note_cell_def note_browser_def working_browser_def useLocalStorage_def
        useLocalStorage_initializer_def getItem_def)
  have b: "window_defined note_browser" "getItem_throws note_browser ''note'' = None"
    "removeItem_throws note_browser ''note'' = None"
    "localStorage note_browser ''note'' = Some ''draft text''"
    by (simp_all add: note_browser_def working_browser_def)
  from remove_twice [of reference_JSON note_browser note_cell] b c show ?thesis
    by simp
qed

text \<open>
  C9, amended. Given that \<^verbatim>\<open>JSON.parse\<close> refuses the empty text: for every key, every
  environment and every default value, with no configs argument, the
  \<^verbatim>\<open>getLocalStorage\<close> of src/src/useLocalStorage.ts returns a record whose \<^verbatim>\<open>value\<close>
  is what the \<^verbatim>\<open>getLocalStorage\<close> of src/unnamed/part_003 returns, unless the storage
  area answers with the empty string and the default is a string: then the first
  returns the empty string and the second the default.
\<close>

theorem getLocalStorage_variants:
  assumes "JSON_parse J [] = None"
  shows "\<exists>r. getLocalStorage J b key d None = Inr r
           \<and> getLocalStorage_part_003 J b key d
             = Inr (if empty_text_under_string_default b key d then d else r_value r)
           \<and> (empty_text_under_string_default b key d \<longrightarrow> r_value r = JString [])"
proof -
  have fb: "fallback key d None = nullish_coalesce d JNull"
    by (cases d) (simp_all add: fallback_def nullish_coalesce_def getDefaultFromConfigs_def)
  have nn: "is_string d \<Longrightarrow> nullish_coalesce d JNull = d"
    by (cases d) (simp_all add: nullish_coalesce_def)
  show ?thesis
    using assms
    by (auto simp: getLocalStorage_def getLocalStorage_part_003_def getItem_def fb nn
        empty_text_under_string_default_def split: option.splits)
qed

theorem getLocalStorage_variants_witness:
  "JSON_parse reference_JSON [] = None
   \<and> \<not> empty_text_under_string_default (working_browser\<lparr>localStorage := [''n'' \<mapsto> ''17'']\<rparr>)
        ''n'' (JNumber 0)
   \<and> getLocalStorage reference_JSON (working_browser\<lparr>localStorage := [''n'' \<mapsto> ''17'']\<rparr>)
        ''n'' (JNumber 0) None
     = Inr \<lparr>r_value = JNumber 17, r_isNull = False\<rparr>
   \<and> getLocalStorage_part_003 reference_JSON
        (working_browser\<lparr>localStorage := [''n'' \<mapsto> ''17'']\<rparr>) ''n'' (JNumber 0)
     = Inr (JNumber 17)"
proof -
  have p: "JSON_parse reference_JSON [] = None"
    by (simp add: reference_JSON_def parse_text_def skip_ws_def)
  have g: "getLocalStorage reference_JSON (working_browser\<lparr>localStorage := [''n'' \<mapsto> ''17'']\<rparr>)
        ''n'' (JNumber 0) None
     = Inr \<lparr>r_value = JNumber 17, r_isNull = False\<rparr>"
    by (simp add: getLocalStorage_def working_browser_def getItem_def reference_JSON_def
        parse_text_def skip_ws_def is_ws_def parse_nat_def is_digit_def digits_value_def)
  show ?thesis
    using getLocalStorage_variants
      [OF p, of "working_browser\<lparr>localStorage := [''n'' \<mapsto> ''17'']\<rparr>" "''n''" "JNumber 0"] p g
    by (simp add: empty_text_under_string_default_def)
qed

text \<open>
  The claim as written fails where the empty string is stored under the key and the
  default is a string: the \<^verbatim>\<open>value\<close> of the first variant is the empty string, the
  second variant returns the default.
\<close>

theorem getLocalStorage_variants_counterexample:
  "map_sum id r_value
     (getLocalStorage reference_JSON (working_browser\<lparr>localStorage := [''k'' \<mapsto> '''']\<rparr>)
        ''k'' (JString ''x'') None)
   = Inr (JString '''')
   \<and> getLocalStorage_part_003 reference_JSON
        (working_browser\<lparr>localStorage := [''k'' \<mapsto> '''']\<rparr>) ''k'' (JString ''x'')
     = Inr (JString ''x'')
   \<and> map_sum id r_value
        (getLocalStorage reference_JSON (working_browser\<lparr>localStorage := [''k'' \<mapsto> '''']\<rparr>)
           ''k'' (JString ''x'') None)
     \<noteq> getLocalStorage_part_003 reference_JSON
          (working_browser\<lparr>localStorage := [''k'' \<mapsto> '''']\<rparr>) ''k'' (JString ''x'')"
  by (simp add: getLocalStorage_def getLocalStorage_part_003_def working_browser_def
      getItem_def nullish_coalesce_def)

text \<open>
  C10. \<^verbatim>\<open>getLocalStorage\<close> of src/src/useLocalStorage.ts never throws: it returns a
  record. Its \<^verbatim>\<open>isNull\<close> is true exactly when no decodable stored item was obtained
  (no window, a storage access that throws, an absent key, or a text that does not
  parse under a default that is not a string), and then its \<^verbatim>\<open>value\<close> is the supplied
  default value, else the default value of the matching configs entry, else null.
\<close>

theorem getLocalStorage_never_throws:
  "\<exists>r. getLocalStorage J b key d configs = Inr r
       \<and> r_isNull r = (\<not> decodable_item J b key d)
       \<and> (r_isNull r \<longrightarrow> r_value r = default_chain key d configs)"
  by (auto simp: getLocalStorage_def decodable_item_def getItem_def fallback_default_chain
      split: option.splits)

theorem getLocalStorage_never_throws_witness:
  "getLocalStorage reference_JSON working_browser ''theme'' JUndefined
     (Some [\<lparr>cfg_key = ''lang'', cfg_defaultValue = JString ''en''\<rparr>,
            \<lparr>cfg_key = ''theme'', cfg_defaultValue = JString ''light''\<rparr>])
   = Inr \<lparr>r_value = JString ''light'', r_isNull = True\<rparr>
   \<and> \<not> decodable_item reference_JSON working_browser ''theme'' JUndefined
   \<and> default_chain ''theme'' JUndefined
        (Some [\<lparr>cfg_key = ''lang'', cfg_defaultValue = JString ''en''\<rparr>,
               \<lparr>cfg_key = ''theme'', cfg_defaultValue = JString ''light''\<rparr>])
     = JString ''light''"
  using getLocalStorage_never_throws
    [of reference_JSON working_browser "''theme''" JUndefined
       "Some [\<lparr>cfg_key = ''lang'', cfg_defaultValue = JString ''en''\<rparr>,
              \<lparr>cfg_key = ''theme'', cfg_defaultValue = JString ''light''\<rparr>]"]
  by (auto simp: decodable_item_def default_chain_def working_browser_def)

end
